theory Spec2Isabelle
  imports Main "HOL-Library.Word"
begin

section \<open>The notebook's data\<close>

text \<open>
  The notebook works on NumPy arrays of dtype int32 and reads their sum as a 64-bit
  integer. An array is the list of its elements; the elements are 32-bit words, so
  that addition wraps around as NumPy's does on an int32 array. Arrays, the runtime's
  program objects and the wrapper's instances are mutable Python objects: each lives at
  an address of the heap defined below.
\<close>

type_synonym i32 = "32 word"
type_synonym i64 = "64 word"
type_synonym ndarray = "i32 list"
type_synonym addr = nat

text \<open>The exceptions the model can raise: Python's own, and those of the runtime.\<close>

datatype error = AttributeError string | IndexError | ValueError | WeldError string

text \<open>The global constants of the second cell: \<^verbatim>\<open>SIZE = (2 << 28)\<close>, \<^verbatim>\<open>ITERATIONS = 40\<close>.\<close>

definition SIZE :: nat where
  "SIZE = push_bit 28 2"

definition ITERATIONS :: nat where
  "ITERATIONS = 40"

text \<open>Python 2's \<^verbatim>\<open>xrange(n)\<close>: the integers from 0 up to n - 1, in order.\<close>

definition xrange :: "nat \<Rightarrow> int list" where
  "xrange n = map int [0..<n]"

subsection \<open>The NumPy operations the baseline uses\<close>

text \<open>
  Modelled from the spec: NumPy is an external library, so its two operations are written
  down from their documented behaviour. \<^verbatim>\<open>a += i\<close> on an int32 array adds the
  integer to every element in place, in the array's own type: each addition is reduced
  modulo \<open>2 ^ 32\<close>. \<^verbatim>\<open>a.sum()\<close> on an int32 array accumulates in the platform
  integer, int64 on the notebook's platform (its printed result, 418759311360, does not
  fit in 32 bits): each element is sign-extended and the additions are 64-bit.
\<close>

definition np_iadd :: "ndarray \<Rightarrow> int \<Rightarrow> ndarray" where
  "np_iadd a i = map (\<lambda>x. x + word_of_int i) a"

definition np_sum :: "ndarray \<Rightarrow> i64" where
  "np_sum a = sum_list (map scast a)"

subsection \<open>The baseline routine\<close>

text \<open>
  \<^verbatim>\<open>
  def run_numpy_addition(a):
      for i in xrange(ITERATIONS):
          a += i
      return a.sum()
  \<close>
  The array is updated in place, so the model returns the array as the call leaves it
  together with the value returned.
\<close>

fun numpy_loop :: "ndarray \<Rightarrow> int list \<Rightarrow> ndarray" where
  "numpy_loop a [] = a"
| "numpy_loop a (i # is) = numpy_loop (np_iadd a i) is"

definition run_numpy_addition :: "ndarray \<Rightarrow> ndarray \<times> int" where
  "run_numpy_addition a =
     (let a' = numpy_loop a (xrange ITERATIONS) in (a', sint (np_sum a')))"

section \<open>Python strings\<close>

text \<open>
  \<^verbatim>\<open>str(number)\<close> of an integer is its decimal numeral, with a minus sign when it
  is negative.
\<close>

definition is_digit :: "char \<Rightarrow> bool" where
  "is_digit c = (c \<in> set ''0123456789'')"

definition digit_val :: "char \<Rightarrow> nat" where
  "digit_val c = of_char c - 48"

definition digit_char :: "nat \<Rightarrow> char" where
  "digit_char d = ''0123456789'' ! d"

function str_nat :: "nat \<Rightarrow> string" where
  "str_nat n = (if n < 10 then [digit_char n] else str_nat (n div 10) @ [digit_char (n mod 10)])"
  by pat_completeness auto
termination
  by (relation "measure id") auto

declare str_nat.simps [simp del]

definition str_int :: "int \<Rightarrow> string" where
  "str_int i = (if i < 0 then CHR ''-'' # str_nat (nat (- i)) else str_nat (nat i))"

text \<open>
  \<^verbatim>\<open>template.format(arg0, arg1, ...)\<close> for the templates of the notebook: a
  replacement field is a single digit between braces and is replaced by the argument of
  that index, whose text is not scanned again; every other character is copied. A field
  whose index has no argument raises IndexError. Any other use of a brace raises
  ValueError here (Python's doubled braces, which the notebook's templates do not use,
  are not modelled).
\<close>

fun str_format :: "string \<Rightarrow> string list \<Rightarrow> error + string" where
  "str_format [] args = Inr []"
| "str_format (c # cs) args =
     (if c = CHR ''{'' then
        (case cs of
           d # e # rest \<Rightarrow>
             (if is_digit d \<and> e = CHR ''}'' then
                (if digit_val d < length args then
                   (case str_format rest args of
                      Inl err \<Rightarrow> Inl err
                    | Inr s \<Rightarrow> Inr (args ! digit_val d @ s))
                 else Inl IndexError)
              else Inl ValueError)
         | _ \<Rightarrow> Inl ValueError)
      else if c = CHR ''}'' then Inl ValueError
      else (case str_format cs args of
              Inl err \<Rightarrow> Inl err
            | Inr s \<Rightarrow> Inr (c # s)))"

section \<open>The objects of the notebook\<close>

subsection \<open>The runtime's program object\<close>

text \<open>
  The encoders and decoders of cell 13 and of \<^verbatim>\<open>vector_sum\<close>, the runtime's type
  descriptions, and the Python values an evaluation can return.
\<close>

datatype encoder = NumpyArrayEncoder
datatype decoder = NumpyArrayDecoder | ScalarDecoder
datatype weld_type = WeldInt | WeldLong | WeldVec weld_type
datatype pyval = PyInt int | PyArray ndarray

text \<open>
  Modelled from the spec: \<^verbatim>\<open>WeldObject\<close> belongs to the external runtime's Python
  binding, which is not part of the notebook. The notebook reads and writes its
  attributes \<^verbatim>\<open>weld_code\<close> and \<^verbatim>\<open>decoder\<close>, passes an encoder and a decoder
  to its constructor, and calls \<^verbatim>\<open>update\<close> and \<^verbatim>\<open>evaluate\<close> on it. The notebook
  describes the object as managing the data passed into the runtime and the computation
  that will eventually be executed: its context maps each registered name to the array
  registered under it. \<^verbatim>\<open>update\<close> registers a value and returns the name the library chose for
  it; the choice is the library's, so the name is a parameter of the model.
\<close>

record WeldObject =
  wo_encoder :: encoder
  wo_decoder :: decoder
  weld_code :: string
  wo_context :: "string \<rightharpoonup> addr"

definition WeldObject_new :: "encoder \<Rightarrow> decoder \<Rightarrow> WeldObject" where
  "WeldObject_new enc dec =
     \<lparr>wo_encoder = enc, wo_decoder = dec, weld_code = [], wo_context = Map.empty\<rparr>"

definition update :: "string \<Rightarrow> WeldObject \<Rightarrow> addr \<Rightarrow> weld_type \<Rightarrow> WeldObject \<times> string" where
  "update name wo v ty = (wo\<lparr>wo_context := (wo_context wo)(name \<mapsto> v)\<rparr>, name)"

text \<open>
  The runtime's \<^verbatim>\<open>evaluate\<close>, as the notebook sees it: it reads the program object
  and the arrays its context refers to, and returns a Python value or raises. The
  notebook's functions take it as a parameter.
\<close>

type_synonym runtime = "WeldObject \<Rightarrow> (addr \<rightharpoonup> ndarray) \<Rightarrow> weld_type \<Rightarrow> error + pyval"

text \<open>Cell 13: \<^verbatim>\<open>_encoder = NumpyArrayEncoder()\<close>, \<^verbatim>\<open>_decoder = NumpyArrayDecoder()\<close>.\<close>

definition global_encoder :: encoder where
  "global_encoder = NumpyArrayEncoder"

definition global_decoder :: decoder where
  "global_decoder = NumpyArrayDecoder"

subsection \<open>The heap, the class and its instances\<close>

text \<open>
  \<^verbatim>\<open>class HelloWeldVector(object): pass\<close> has no attributes of its own at first. The
  only attributes the notebook ever sets on the class or on an instance are
  \<^verbatim>\<open>vector\<close> and \<^verbatim>\<open>weldobj\<close>; each holds a reference. The heap holds the
  arrays, the program objects, the attribute dictionary of every instance, the two
  attribute slots of the class, the next free address, and the trace of the programs that
  were handed to the runtime's \<^verbatim>\<open>evaluate\<close>, in order.
\<close>

record instance_dict =
  inst_vector :: "addr option"
  inst_weldobj :: "addr option"

record heap =
  arrays :: "addr \<rightharpoonup> ndarray"
  weldobjs :: "addr \<rightharpoonup> WeldObject"
  instances :: "addr \<rightharpoonup> instance_dict"
  cls_vector :: "addr option"
  cls_weldobj :: "addr option"
  next_id :: addr
  evaluated :: "string list"

text \<open>What \<^verbatim>\<open>self\<close> can be: the class object itself, or one of its instances.\<close>

datatype pyobj = TheClass | Instance addr

text \<open>
  Cell 12 installs the four functions on the class:
  \<^verbatim>\<open>
  setattr(HelloWeldVector, '__init__', classmethod(__init__))
  setattr(HelloWeldVector, 'add', add)
  setattr(HelloWeldVector, '__iadd__', __iadd__)
  setattr(HelloWeldVector, 'vector_sum', vector_sum)
  \<close>
  A plain function found through an instance is called with the instance as its first
  argument; a \<^verbatim>\<open>classmethod\<close> found through an instance is called with the
  instance's class as its first argument.
\<close>

datatype method_kind = PlainFunction | ClassMethod

fun bind_self :: "method_kind \<Rightarrow> addr \<Rightarrow> pyobj" where
  "bind_self PlainFunction inst = Instance inst"
| "bind_self ClassMethod inst = TheClass"

text \<open>
  How cell 12 installs \<^verbatim>\<open>__init__\<close>. The other three are plain functions: their
  \<^verbatim>\<open>self\<close> is the object they are called on.
\<close>

definition init_kind :: method_kind where
  "init_kind = ClassMethod"

text \<open>
  Attribute assignment \<^verbatim>\<open>self.vector = ...\<close>, \<^verbatim>\<open>self.weldobj = ...\<close> writes the
  dictionary of the object \<^verbatim>\<open>self\<close> is; attribute lookup on an instance reads the
  instance's dictionary first and the class's after it, and raises AttributeError when
  neither has the attribute.
\<close>

definition no_attributes :: instance_dict where
  "no_attributes = \<lparr>inst_vector = None, inst_weldobj = None\<rparr>"

definition dict_of :: "heap \<Rightarrow> addr \<Rightarrow> instance_dict" where
  "dict_of h i = (case instances h i of None \<Rightarrow> no_attributes | Some d \<Rightarrow> d)"

fun setattr_vector :: "heap \<Rightarrow> pyobj \<Rightarrow> addr \<Rightarrow> heap" where
  "setattr_vector h TheClass p = h\<lparr>cls_vector := Some p\<rparr>"
| "setattr_vector h (Instance i) p =
     h\<lparr>instances := (instances h)(i \<mapsto> (dict_of h i)\<lparr>inst_vector := Some p\<rparr>)\<rparr>"

fun setattr_weldobj :: "heap \<Rightarrow> pyobj \<Rightarrow> addr \<Rightarrow> heap" where
  "setattr_weldobj h TheClass w = h\<lparr>cls_weldobj := Some w\<rparr>"
| "setattr_weldobj h (Instance i) w =
     h\<lparr>instances := (instances h)(i \<mapsto> (dict_of h i)\<lparr>inst_weldobj := Some w\<rparr>)\<rparr>"

definition class_vector :: "heap \<Rightarrow> error + addr" where
  "class_vector h =
     (case cls_vector h of
        Some p \<Rightarrow> Inr p
      | None \<Rightarrow> Inl (AttributeError ''vector''))"

definition class_weldobj :: "heap \<Rightarrow> error + addr" where
  "class_weldobj h =
     (case cls_weldobj h of
        Some w \<Rightarrow> Inr w
      | None \<Rightarrow> Inl (AttributeError ''weldobj''))"

fun getattr_vector :: "heap \<Rightarrow> pyobj \<Rightarrow> error + addr" where
  "getattr_vector h TheClass = class_vector h"
| "getattr_vector h (Instance i) =
     (case instances h i of
        None \<Rightarrow> Inl (AttributeError ''vector'')
      | Some d \<Rightarrow>
          (case inst_vector d of
             Some p \<Rightarrow> Inr p
           | None \<Rightarrow> class_vector h))"

fun getattr_weldobj :: "heap \<Rightarrow> pyobj \<Rightarrow> error + addr" where
  "getattr_weldobj h TheClass = class_weldobj h"
| "getattr_weldobj h (Instance i) =
     (case instances h i of
        None \<Rightarrow> Inl (AttributeError ''weldobj'')
      | Some d \<Rightarrow>
          (case inst_weldobj d of
             Some w \<Rightarrow> Inr w
           | None \<Rightarrow> class_weldobj h))"

text \<open>
  \<^verbatim>\<open>self.weldobj\<close> as the methods use it: the address the attribute holds and the
  program object at that address. A reference in Python always has its object; an
  address with no object counts as the attribute being absent.
\<close>

definition the_weldobj :: "heap \<Rightarrow> pyobj \<Rightarrow> error + addr \<times> WeldObject" where
  "the_weldobj h self =
     (case getattr_weldobj h self of
        Inl e \<Rightarrow> Inl e
      | Inr w \<Rightarrow>
          (case weldobjs h w of
             None \<Rightarrow> Inl (AttributeError ''weldobj'')
           | Some wo \<Rightarrow> Inr (w, wo)))"

definition set_weldobj :: "heap \<Rightarrow> addr \<Rightarrow> WeldObject \<Rightarrow> heap" where
  "set_weldobj h w wo = h\<lparr>weldobjs := (weldobjs h)(w \<mapsto> wo)\<rparr>"

text \<open>\<^verbatim>\<open>v.weldobj.weld_code\<close> and \<^verbatim>\<open>v.weldobj.decoder\<close>, read through an object.\<close>

definition weld_code_of :: "heap \<Rightarrow> pyobj \<Rightarrow> error + string" where
  "weld_code_of h v =
     (case the_weldobj h v of
        Inl e \<Rightarrow> Inl e
      | Inr (w, wo) \<Rightarrow> Inr (weld_code wo))"

definition decoder_of :: "heap \<Rightarrow> pyobj \<Rightarrow> error + decoder" where
  "decoder_of h v =
     (case the_weldobj h v of
        Inl e \<Rightarrow> Inl e
      | Inr (w, wo) \<Rightarrow> Inr (wo_decoder wo))"

section \<open>The wrapper's methods\<close>

text \<open>
  \<^verbatim>\<open>
  def __init__(self, vector):
      self.vector = vector
      self.weldobj = WeldObject(_encoder, _decoder)
      name = self.weldobj.update(vector, WeldVec(WeldInt()))
      self.weldobj.weld_code = name
  \<close>
  The new program object takes the next free address. \<open>name\<close> is the name the
  library's \<^verbatim>\<open>update\<close> returns.
\<close>

definition init :: "string \<Rightarrow> heap \<Rightarrow> pyobj \<Rightarrow> addr \<Rightarrow> heap" where
  "init name h self vector =
     (let h1 = setattr_vector h self vector;
          w = next_id h1;
          h2 = setattr_weldobj
                 (h1\<lparr>weldobjs := (weldobjs h1)(w \<mapsto> WeldObject_new global_encoder global_decoder),
                     next_id := Suc w\<rparr>) self w;
          (wo, name') = update name (WeldObject_new global_encoder global_decoder) vector
                          (WeldVec WeldInt);
          h3 = set_weldobj h2 w wo
      in set_weldobj h3 w (wo\<lparr>weld_code := name'\<rparr>))"

text \<open>
  The call \<^verbatim>\<open>HelloWeldVector(vector)\<close>: a new instance with an empty dictionary is
  created, \<^verbatim>\<open>__init__\<close> is found through it and called with the \<^verbatim>\<open>self\<close> its
  installation gives, and the new instance is the value of the call.
\<close>

definition HelloWeldVector :: "string \<Rightarrow> heap \<Rightarrow> addr \<Rightarrow> heap \<times> pyobj" where
  "HelloWeldVector name h vector =
     (let inst = next_id h;
          h0 = h\<lparr>instances := (instances h)(inst \<mapsto> no_attributes), next_id := Suc inst\<rparr>
      in (init name h0 (bind_self init_kind inst) vector, Instance inst))"

text \<open>
  \<^verbatim>\<open>
  def add(self, number):
      template = "map({0}, |e| e + {1})"
      self.weldobj.weld_code = template.format(
          self.weldobj.weld_code, str(number))
      return self

  def __iadd__(self, other):
      return self.add(other)
  \<close>
\<close>

definition add :: "heap \<Rightarrow> pyobj \<Rightarrow> int \<Rightarrow> heap \<times> (error + pyobj)" where
  "add h self number =
     (case the_weldobj h self of
        Inl e \<Rightarrow> (h, Inl e)
      | Inr (w, wo) \<Rightarrow>
          (case str_format ''map({0}, |e| e + {1})'' [weld_code wo, str_int number] of
             Inl e \<Rightarrow> (h, Inl e)
           | Inr code \<Rightarrow> (set_weldobj h w (wo\<lparr>weld_code := code\<rparr>), Inr self)))"

definition iadd :: "heap \<Rightarrow> pyobj \<Rightarrow> int \<Rightarrow> heap \<times> (error + pyobj)" where
  "iadd h self other = add h self other"

text \<open>
  \<^verbatim>\<open>
  def vector_sum(self):
      template = "result(for({0}, merger[i64,+], |b,i,e| merge(b, i64(e))))"
      prev_code = self.weldobj.weld_code
      self.weldobj.weld_code = template.format(self.weldobj.weld_code)
      self.weldobj.decoder = ScalarDecoder()
      result = self.weldobj.evaluate(WeldLong(), verbose=False)
      self.weldobj.decoder = _decoder
      self.weldobj.weld_code = prev_code
      return result
  \<close>
  The call of \<^verbatim>\<open>evaluate\<close> is recorded in the trace with the program it is given. When
  it raises, the two statements after it do not run.
\<close>

definition vector_sum :: "runtime \<Rightarrow> heap \<Rightarrow> pyobj \<Rightarrow> heap \<times> (error + pyval)" where
  "vector_sum ev h self =
     (case the_weldobj h self of
        Inl e \<Rightarrow> (h, Inl e)
      | Inr (w, wo) \<Rightarrow>
          (let prev_code = weld_code wo in
           case str_format ''result(for({0}, merger[i64,+], |b,i,e| merge(b, i64(e))))''
                  [weld_code wo] of
             Inl e \<Rightarrow> (h, Inl e)
           | Inr code \<Rightarrow>
               (let wo1 = wo\<lparr>weld_code := code\<rparr>;
                    wo2 = wo1\<lparr>wo_decoder := ScalarDecoder\<rparr>;
                    h1 = (set_weldobj h w wo2)\<lparr>evaluated := evaluated h @ [weld_code wo2]\<rparr>
                in case ev wo2 (arrays h1) WeldLong of
                     Inl e \<Rightarrow> (h1, Inl e)
                   | Inr result \<Rightarrow>
                       (let wo3 = wo2\<lparr>wo_decoder := global_decoder\<rparr>;
                            wo4 = wo3\<lparr>weld_code := prev_code\<rparr>
                        in (set_weldobj h1 w wo4, Inr result)))))"

text \<open>
  \<^verbatim>\<open>
  def run_numpy_addition_with_weld(a):
      a = HelloWeldVector(a)
      for i in xrange(ITERATIONS):
          a += i
      return a.vector_sum()
  \<close>
  \<^verbatim>\<open>a += i\<close> rebinds \<^verbatim>\<open>a\<close> to what \<^verbatim>\<open>__iadd__\<close> returns.
\<close>

fun weld_loop :: "heap \<Rightarrow> pyobj \<Rightarrow> int list \<Rightarrow> heap \<times> (error + pyobj)" where
  "weld_loop h a [] = (h, Inr a)"
| "weld_loop h a (i # is) =
     (case iadd h a i of
        (h', Inl e) \<Rightarrow> (h', Inl e)
      | (h', Inr a') \<Rightarrow> weld_loop h' a' is)"

definition run_numpy_addition_with_weld ::
    "runtime \<Rightarrow> string \<Rightarrow> heap \<Rightarrow> addr \<Rightarrow> heap \<times> (error + pyval)" where
  "run_numpy_addition_with_weld ev name h a =
     (case HelloWeldVector name h a of
        (h1, v) \<Rightarrow>
          (case weld_loop h1 v (xrange ITERATIONS) of
             (h2, Inl e) \<Rightarrow> (h2, Inl e)
           | (h2, Inr v') \<Rightarrow> vector_sum ev h2 v'))"

subsection \<open>Sequences of calls on a wrapper\<close>

text \<open>
  A client's calls on a variable \<^verbatim>\<open>v\<close> that holds a wrapper: \<^verbatim>\<open>v.add(n)\<close>,
  \<^verbatim>\<open>v += n\<close> and \<^verbatim>\<open>v.vector_sum()\<close>, run in order until one raises. Only
  \<^verbatim>\<open>v += n\<close> rebinds the variable.
\<close>

datatype call = Add int | IAdd int | VectorSum

fun exec_call :: "runtime \<Rightarrow> heap \<Rightarrow> pyobj \<Rightarrow> call \<Rightarrow> heap \<times> (error + pyobj)" where
  "exec_call ev h v (Add n) =
     (case add h v n of
        (h', Inl e) \<Rightarrow> (h', Inl e)
      | (h', Inr r) \<Rightarrow> (h', Inr v))"
| "exec_call ev h v (IAdd n) = iadd h v n"
| "exec_call ev h v VectorSum =
     (case vector_sum ev h v of
        (h', Inl e) \<Rightarrow> (h', Inl e)
      | (h', Inr r) \<Rightarrow> (h', Inr v))"

fun run_calls :: "runtime \<Rightarrow> heap \<Rightarrow> pyobj \<Rightarrow> call list \<Rightarrow> heap \<times> (error + pyobj)" where
  "run_calls ev h v [] = (h, Inr v)"
| "run_calls ev h v (c # cs) =
     (case exec_call ev h v c of
        (h', Inl e) \<Rightarrow> (h', Inl e)
      | (h', Inr v') \<Rightarrow> run_calls ev h' v' cs)"

section \<open>The accelerator on the programs the notebook generates\<close>

text \<open>
  Modelled from the spec: the accelerator runtime is an external dependency and its
  \<^verbatim>\<open>evaluate\<close> is not part of the notebook. The model covers the fragment of its
  language that the notebook's two templates generate, with the meaning the notebook and
  the runtime's documentation give it: a name stands for the int32 vector registered
  under it in the program object's context; \<^verbatim>\<open>map(v, |e| e + n)\<close> adds the i32
  literal \<open>n\<close> to every element of \<open>v\<close>, in 32-bit arithmetic;
  \<^verbatim>\<open>result(for(v, merger[i64,+], |b,i,e| merge(b, i64(e))))\<close> widens every element
  of \<open>v\<close> to 64 bits and adds them up. Programs are matched literally against the
  templates; any other text is a syntax error here.
\<close>

datatype weld_expr = Ident string | MapAdd weld_expr int | SumMerger weld_expr
datatype weld_value = VecI32 "i32 list" | I64 i64

definition ident_char :: "char \<Rightarrow> bool" where
  "ident_char c =
     (c \<in> set ''abcdefghijklmnopqrstuvwxyzABCDEFGHIJKLMNOPQRSTUVWXYZ0123456789_'')"

fun strip_prefix :: "string \<Rightarrow> string \<Rightarrow> string option" where
  "strip_prefix [] s = Some s"
| "strip_prefix (p # ps) [] = None"
| "strip_prefix (p # ps) (c # cs) = (if p = c then strip_prefix ps cs else None)"

definition nat_of_digits :: "string \<Rightarrow> nat" where
  "nat_of_digits ds = foldl (\<lambda>a c. 10 * a + digit_val c) 0 ds"

definition parse_nat :: "string \<Rightarrow> (nat \<times> string) option" where
  "parse_nat s =
     (let ds = takeWhile is_digit s
      in if ds = [] then None else Some (nat_of_digits ds, dropWhile is_digit s))"

definition parse_int :: "string \<Rightarrow> (int \<times> string) option" where
  "parse_int s =
     (case s of
        [] \<Rightarrow> None
      | c # cs \<Rightarrow>
          if c = CHR ''-'' then map_option (\<lambda>(n, r). (- int n, r)) (parse_nat cs)
          else map_option (\<lambda>(n, r). (int n, r)) (parse_nat s))"

definition parse_ident :: "string \<Rightarrow> (weld_expr \<times> string) option" where
  "parse_ident s =
     (let x = takeWhile ident_char s
      in if x = [] \<or> is_digit (hd x) then None else Some (Ident x, dropWhile ident_char s))"

function parse_expr :: "string \<Rightarrow> (weld_expr \<times> string) option" where
  "parse_expr s =
     (case strip_prefix ''map('' s of
        Some r \<Rightarrow>
          (case parse_expr r of
             None \<Rightarrow> None
           | Some (e, r1) \<Rightarrow>
               (case strip_prefix '', |e| e + '' r1 of
                  None \<Rightarrow> None
                | Some r2 \<Rightarrow>
                    (case parse_int r2 of
                       None \<Rightarrow> None
                     | Some (n, r3) \<Rightarrow>
                         (case strip_prefix '')'' r3 of
                            None \<Rightarrow> None
                          | Some r4 \<Rightarrow> Some (MapAdd e n, r4)))))
      | None \<Rightarrow>
          (case strip_prefix ''result(for('' s of
             Some r \<Rightarrow>
               (case parse_expr r of
                  None \<Rightarrow> None
                | Some (e, r1) \<Rightarrow>
                    (case strip_prefix '', merger[i64,+], |b,i,e| merge(b, i64(e))))'' r1 of
                       None \<Rightarrow> None
                     | Some r2 \<Rightarrow> Some (SumMerger e, r2)))
           | None \<Rightarrow> parse_ident s))"
  by pat_completeness auto
termination
proof -
  have no_longer: "strip_prefix p s = Some r \<Longrightarrow> length r \<le> length s" for p s r
    by (induction p s rule: strip_prefix.induct) (auto split: if_splits)
  have shorter: "strip_prefix (c # p) s = Some r \<Longrightarrow> length r < length s" for c p s r
    by (cases s) (auto split: if_splits dest!: no_longer)
  show ?thesis
  proof (relation "measure length")
    show "wf (measure length)" by simp
  next
    fix s r :: string
    assume "strip_prefix ''map('' s = Some r"
    then have "length r < length s" by (rule shorter)
    then show "(r, s) \<in> measure length" by simp
  next
    fix s r :: string
    assume "strip_prefix ''result(for('' s = Some r"
    then have "length r < length s" by (rule shorter)
    then show "(r, s) \<in> measure length" by simp
  qed
qed

declare parse_expr.simps [simp del]

definition parse_program :: "string \<Rightarrow> weld_expr option" where
  "parse_program s =
     (case parse_expr s of
        Some (e, []) \<Rightarrow> Some e
      | _ \<Rightarrow> None)"

definition i32_literal :: "int \<Rightarrow> bool" where
  "i32_literal n = (- (2 ^ 31) \<le> n \<and> n < 2 ^ 31)"

fun eval_expr :: "(string \<rightharpoonup> ndarray) \<Rightarrow> weld_expr \<Rightarrow> error + weld_value" where
  "eval_expr env (Ident x) =
     (case env x of
        None \<Rightarrow> Inl (WeldError ''undefined symbol'')
      | Some xs \<Rightarrow> Inr (VecI32 xs))"
| "eval_expr env (MapAdd e n) =
     (case eval_expr env e of
        Inl err \<Rightarrow> Inl err
      | Inr (VecI32 xs) \<Rightarrow>
          if i32_literal n then Inr (VecI32 (map (\<lambda>e. e + word_of_int n) xs))
          else Inl (WeldError ''literal out of range'')
      | Inr (I64 _) \<Rightarrow> Inl (WeldError ''type mismatch''))"
| "eval_expr env (SumMerger e) =
     (case eval_expr env e of
        Inl err \<Rightarrow> Inl err
      | Inr (VecI32 xs) \<Rightarrow> Inr (I64 (foldl (\<lambda>b e. b + scast e) 0 xs))
      | Inr (I64 _) \<Rightarrow> Inl (WeldError ''type mismatch''))"

text \<open>
  Decoding: the scalar decoder reads a 64-bit result as a Python integer; the array
  decoder hands back an int32 vector as an array.
\<close>

definition decode :: "decoder \<Rightarrow> weld_type \<Rightarrow> weld_value \<Rightarrow> error + pyval" where
  "decode dec restype v =
     (case (dec, restype, v) of
        (ScalarDecoder, WeldLong, I64 x) \<Rightarrow> Inr (PyInt (sint x))
      | (NumpyArrayDecoder, WeldVec WeldInt, VecI32 xs) \<Rightarrow> Inr (PyArray xs)
      | _ \<Rightarrow> Inl (WeldError ''result type mismatch''))"

definition weld_evaluate :: runtime where
  "weld_evaluate wo arrs restype =
     (case parse_program (weld_code wo) of
        None \<Rightarrow> Inl (WeldError ''syntax error'')
      | Some e \<Rightarrow>
          (case eval_expr (\<lambda>x. case wo_context wo x of None \<Rightarrow> None | Some p \<Rightarrow> arrs p) e of
             Inl err \<Rightarrow> Inl err
           | Inr v \<Rightarrow> decode (wo_decoder wo) restype v))"


section \<open>The program text, as the specification describes it\<close>

text \<open>
  The nested text \<^verbatim>\<open>map(...map(map(N, |e| e + n1), |e| e + n2)..., |e| e + nk)\<close>:
  \<open>map_layers N ms\<close> puts one layer around \<open>N\<close> for each number of \<open>ms\<close>, the first
  number of \<open>ms\<close> outermost; after the calls \<open>add(n1), \<dots>, add(nk)\<close> the outermost layer
  is the one of \<open>nk\<close>.
\<close>

fun map_layers :: "string \<Rightarrow> int list \<Rightarrow> string" where
  "map_layers N [] = N"
| "map_layers N (n # inner) = ''map('' @ map_layers N inner @ '', |e| e + '' @ str_int n @ '')''"

definition nested_map :: "string \<Rightarrow> int list \<Rightarrow> string" where
  "nested_map N ns = map_layers N (rev ns)"

text \<open>The program \<^verbatim>\<open>vector_sum\<close> hands to the runtime, for the accumulated code \<open>c\<close>.\<close>

definition sum_program :: "string \<Rightarrow> string" where
  "sum_program c = ''result(for('' @ c @ '', merger[i64,+], |b,i,e| merge(b, i64(e))))''"

text \<open>
  The text of an expression of the fragment, and the names the runtime can be expected
  to assign: a letter or an underscore followed by letters, digits and underscores.
\<close>

fun render :: "weld_expr \<Rightarrow> string" where
  "render (Ident x) = x"
| "render (MapAdd e n) = ''map('' @ render e @ '', |e| e + '' @ str_int n @ '')''"
| "render (SumMerger e) =
     ''result(for('' @ render e @ '', merger[i64,+], |b,i,e| merge(b, i64(e))))''"

definition valid_name :: "string \<Rightarrow> bool" where
  "valid_name x = (x \<noteq> [] \<and> list_all ident_char x \<and> \<not> is_digit (hd x))"

fun wf_expr :: "weld_expr \<Rightarrow> bool" where
  "wf_expr (Ident x) = valid_name x"
| "wf_expr (MapAdd e n) = wf_expr e"
| "wf_expr (SumMerger e) = wf_expr e"

definition no_digit_ahead :: "string \<Rightarrow> bool" where
  "no_digit_ahead r = (case r of [] \<Rightarrow> True | c # _ \<Rightarrow> \<not> is_digit c)"

definition comma_ahead :: "string \<Rightarrow> bool" where
  "comma_ahead r = (case r of [] \<Rightarrow> True | c # _ \<Rightarrow> c = CHR '','')"

section \<open>Example states\<close>

text \<open>A heap with nothing in it, \<^verbatim>\<open>np.array(...)\<close> allocating an array, and a heap
  holding one array, at address 0.\<close>

definition empty_heap :: heap where
  "empty_heap = \<lparr>arrays = Map.empty, weldobjs = Map.empty, instances = Map.empty,
     cls_vector = None, cls_weldobj = None, next_id = 0, evaluated = []\<rparr>"

definition np_array :: "heap \<Rightarrow> ndarray \<Rightarrow> heap \<times> addr" where
  "np_array h a =
     (h\<lparr>arrays := (arrays h)(next_id h \<mapsto> a), next_id := Suc (next_id h)\<rparr>, next_id h)"

definition example_heap :: "ndarray \<Rightarrow> heap" where
  "example_heap a = fst (np_array empty_heap a)"

text \<open>The heap after \<^verbatim>\<open>v = HelloWeldVector(a)\<close> for the array \<open>[1, 2, 3]\<close> at address 0,
  the runtime naming it \<^verbatim>\<open>_inp0\<close>: the instance is at address 1, its program object
  at address 2.\<close>

definition example_wrapped :: heap where
  "example_wrapped = fst (HelloWeldVector ''_inp0'' (example_heap [1, 2, 3]) 0)"

section \<open>The baseline routine: what it leaves and what it returns\<close>

lemma numpy_loop_adds:
  "numpy_loop a ns = map (\<lambda>x. x + word_of_int (sum_list ns)) a"
  by (induction ns arbitrary: a) (simp_all add: np_iadd_def add.assoc)

lemma sum_xrange_ITERATIONS: "sum_list (xrange ITERATIONS) = 780"
  by (simp add: xrange_def ITERATIONS_def upt_rec)

lemma run_numpy_addition_eq:
  "run_numpy_addition a =
     (map (\<lambda>x. x + 780) a, sint (sum_list (map (\<lambda>x. scast (x + 780)) a) :: i64))"
  by (simp add: run_numpy_addition_def Let_def numpy_loop_adds sum_xrange_ITERATIONS
      np_sum_def comp_def)

lemma np_sum_zeros_plus:
  "np_sum (map (\<lambda>x. x + c) (replicate n 0)) = of_nat n * scast c"
  by (simp add: np_sum_def sum_list_replicate)

lemma run_numpy_addition_zeros:
  "snd (run_numpy_addition (replicate SIZE 0)) = 418759311360"
proof -
  have "np_sum (map (\<lambda>x. x + 780) (replicate SIZE 0)) = (418759311360 :: i64)"
    unfolding np_sum_zeros_plus by (simp add: SIZE_def)
  then show ?thesis
    by (simp add: run_numpy_addition_def Let_def numpy_loop_adds sum_xrange_ITERATIONS)
qed

subsection \<open>When nothing overflows\<close>

lemma sint_scast_up: "sint (scast (x :: i32) :: i64) = sint x"
  by (rule sint_up_scast) (simp add: is_up)

lemma sint_sum_scast:
  "sint (sum_list (map scast (a :: i32 list)) :: i64)
     = signed_take_bit 63 (sum_list (map sint a))"
proof (induction a)
  case Nil
  show ?case by simp
next
  case (Cons x a)
  have "sint (scast x + sum_list (map scast a) :: i64)
      = signed_take_bit 63 (sint (scast x :: i64) + sint (sum_list (map scast a) :: i64))"
    by (simp add: sint_word_ariths)
  also have "\<dots> = signed_take_bit 63
      (signed_take_bit 63 (sint x) + signed_take_bit 63 (sum_list (map sint a)))"
    by (simp add: Cons.IH sint_scast_up signed_take_bit_int_eq_self_iff [THEN iffD2]
        order_trans [OF _ sint_ge [of x]] order_less_le_trans [OF sint_lt [of x]])
  also have "\<dots> = signed_take_bit 63 (sint x + sum_list (map sint a))"
    by (rule signed_take_bit_add)
  finally show ?case by simp
qed

lemma sum_sint_bounds:
  "- (2 ^ 31) * int (length a) \<le> sum_list (map sint (a :: i32 list))
     \<and> sum_list (map sint a) \<le> 2 ^ 31 * int (length a)"
proof (induction a)
  case Nil
  show ?case by simp
next
  case (Cons x a)
  have "- (2 ^ 31) \<le> sint x" and "sint x < 2 ^ 31"
    using sint_ge [of x] sint_lt [of x] by simp_all
  with Cons show ?case by (simp add: algebra_simps)
qed

lemma sint_np_sum:
  assumes "length (a :: i32 list) < 2 ^ 32"
  shows "sint (np_sum a) = sum_list (map sint a)"
proof -
  from assms have "int (length a) < 2 ^ 32" by (simp flip: of_nat_less_iff)
  then have "int (length a) \<le> 2 ^ 32 - 1" by simp
  then have le: "(2 ^ 31 :: int) * int (length a) \<le> 2 ^ 31 * (2 ^ 32 - 1)"
    by (intro mult_left_mono) simp_all
  from sum_sint_bounds [of a] le
  have "- (2 ^ 63) \<le> sum_list (map sint a)" and "sum_list (map sint a) < 2 ^ 63"
    by simp_all
  then show ?thesis
    by (simp add: np_sum_def sint_sum_scast signed_take_bit_int_eq_self)
qed

lemma sint_plus_780:
  assumes "sint (x :: i32) \<le> 2147482867"
  shows "sint (x + 780) = sint x + 780"
proof -
  have "- (2 ^ 31) \<le> sint x" using sint_ge [of x] by simp
  with assms have "signed_take_bit 31 (sint x + 780) = sint x + 780"
    by (intro signed_take_bit_int_eq_self) simp_all
  then show ?thesis by (simp add: sint_word_ariths)
qed

lemma sum_sint_plus_780:
  "list_all (\<lambda>x. sint x \<le> 2147482867) (a :: i32 list) \<Longrightarrow>
     sum_list (map sint (map (\<lambda>x. x + 780) a)) = sum_list (map sint a) + 780 * int (length a)"
  by (induction a) (simp_all add: sint_plus_780 algebra_simps)

lemma run_numpy_addition_no_overflow:
  assumes "list_all (\<lambda>x. sint x \<le> 2147482867) a" and "length a < 2 ^ 32"
  shows "snd (run_numpy_addition a) = sum_list (map sint a) + 780 * int (length a)"
proof -
  have "snd (run_numpy_addition a) = sint (np_sum (map (\<lambda>x. x + 780) a))"
    by (simp add: run_numpy_addition_def Let_def numpy_loop_adds sum_xrange_ITERATIONS)
  also have "\<dots> = sum_list (map sint (map (\<lambda>x. x + 780) a))"
    using assms(2) by (intro sint_np_sum) simp
  also have "\<dots> = sum_list (map sint a) + 780 * int (length a)"
    using assms(1) by (rule sum_sint_plus_780)
  finally show ?thesis .
qed

lemma run_numpy_addition_changes:
  "a \<noteq> [] \<Longrightarrow> fst (run_numpy_addition a) \<noteq> a"
  by (cases a) (simp_all add: run_numpy_addition_eq)

section \<open>Strings: the templates and decimal numerals\<close>

lemma str_format_map:
  "str_format ''map({0}, |e| e + {1})'' [c, s] = Inr (''map('' @ c @ '', |e| e + '' @ s @ '')'')"
  by (simp add: is_digit_def digit_val_def)

lemma str_format_sum:
  "str_format ''result(for({0}, merger[i64,+], |b,i,e| merge(b, i64(e))))'' [c]
     = Inr (sum_program c)"
  by (simp add: is_digit_def digit_val_def sum_program_def)

declare str_format.simps [simp del]

lemma digit_char_props:
  assumes "d < 10"
  shows "is_digit (digit_char d)" and "digit_val (digit_char d) = d"
proof -
  from assms have "d \<in> {0, 1, 2, 3, 4, 5, 6, 7, 8, 9}" by auto
  then show "is_digit (digit_char d)" and "digit_val (digit_char d) = d"
    by (auto simp: is_digit_def digit_val_def digit_char_def)
qed

lemma str_nat_digits: "list_all is_digit (str_nat n)"
proof (induction n rule: str_nat.induct)
  case (1 n)
  show ?case
  proof (cases "n < 10")
    case True
    then show ?thesis by (simp add: str_nat.simps [of n] digit_char_props)
  next
    case False
    with 1 show ?thesis by (simp add: str_nat.simps [of n] digit_char_props)
  qed
qed

lemma str_nat_nonempty: "str_nat n \<noteq> []"
  by (simp add: str_nat.simps [of n])

lemma nat_of_digits_str_nat: "nat_of_digits (str_nat n) = n"
proof (induction n rule: str_nat.induct)
  case (1 n)
  show ?case
  proof (cases "n < 10")
    case True
    then show ?thesis by (simp add: str_nat.simps [of n] nat_of_digits_def digit_char_props)
  next
    case False
    with 1 have "nat_of_digits (str_nat (n div 10)) = n div 10" by simp
    with False show ?thesis
      by (simp add: str_nat.simps [of n] nat_of_digits_def digit_char_props)
  qed
qed

lemma takeWhile_all_stop:
  "list_all P xs \<Longrightarrow> (case r of [] \<Rightarrow> True | c # _ \<Rightarrow> \<not> P c) \<Longrightarrow>
     takeWhile P (xs @ r) = xs \<and> dropWhile P (xs @ r) = r"
  by (induction xs) (auto split: list.splits)

lemma parse_nat_str_nat:
  assumes "no_digit_ahead r"
  shows "parse_nat (str_nat n @ r) = Some (n, r)"
proof -
  from assms have "takeWhile is_digit (str_nat n @ r) = str_nat n \<and>
      dropWhile is_digit (str_nat n @ r) = r"
    by (intro takeWhile_all_stop str_nat_digits) (simp add: no_digit_ahead_def)
  then show ?thesis
    by (simp add: parse_nat_def Let_def str_nat_nonempty nat_of_digits_str_nat)
qed

lemma hd_str_nat_not_minus: "hd (str_nat n) \<noteq> CHR ''-''"
proof -
  have "is_digit (hd (str_nat n))"
    using str_nat_digits [of n] str_nat_nonempty [of n]
    by (cases "str_nat n") simp_all
  then show ?thesis by (auto simp: is_digit_def)
qed

lemma parse_int_str_int:
  assumes "no_digit_ahead r"
  shows "parse_int (str_int i @ r) = Some (i, r)"
proof (cases "i < 0")
  case True
  then show ?thesis
    by (simp add: parse_int_def str_int_def parse_nat_str_nat [OF assms])
next
  case False
  obtain c cs where cs: "str_nat (nat i) = c # cs"
    using str_nat_nonempty [of "nat i"] by (cases "str_nat (nat i)") auto
  with hd_str_nat_not_minus [of "nat i"] have "c \<noteq> CHR ''-''" by simp
  moreover have "parse_nat (str_nat (nat i) @ r) = Some (nat i, r)"
    by (rule parse_nat_str_nat [OF assms])
  ultimately show ?thesis using False cs
    by (simp add: parse_int_def str_int_def)
qed

section \<open>The nested program text\<close>

lemma map_layers_snoc:
  "map_layers N (ms @ [n]) = map_layers (''map('' @ N @ '', |e| e + '' @ str_int n @ '')'') ms"
  by (induction ms) simp_all

lemma nested_map_Nil: "nested_map N [] = N"
  by (simp add: nested_map_def)

lemma nested_map_Cons:
  "nested_map N (n # ns) = nested_map (''map('' @ N @ '', |e| e + '' @ str_int n @ '')'') ns"
  unfolding nested_map_def by (simp only: rev.simps map_layers_snoc)

lemma nested_map_snoc:
  "nested_map N (ns @ [n]) = ''map('' @ nested_map N ns @ '', |e| e + '' @ str_int n @ '')''"
  by (simp add: nested_map_def)

lemma nested_map_render: "nested_map (render e) ns = render (foldl MapAdd e ns)"
proof (induction ns arbitrary: e)
  case Nil
  show ?case by (simp add: nested_map_Nil)
next
  case (Cons n ns)
  from Cons [of "MapAdd e n"] show ?case by (simp add: nested_map_Cons)
qed

section \<open>The accelerator model reads back what the templates write\<close>

lemma strip_prefix_Some: "strip_prefix p s = Some r \<Longrightarrow> s = p @ r"
  by (induction p s rule: strip_prefix.induct) (auto split: if_splits)

lemma name_split:
  assumes "valid_name x" and "comma_ahead r"
  shows "takeWhile ident_char (x @ r) = x" and "dropWhile ident_char (x @ r) = r"
proof -
  from assms have "takeWhile ident_char (x @ r) = x \<and> dropWhile ident_char (x @ r) = r"
    by (intro takeWhile_all_stop)
      (auto simp: valid_name_def comma_ahead_def ident_char_def split: list.splits)
  then show "takeWhile ident_char (x @ r) = x" and "dropWhile ident_char (x @ r) = r"
    by simp_all
qed

lemma name_not_map:
  assumes "valid_name x" and "comma_ahead r"
  shows "strip_prefix ''map('' (x @ r) = None"
proof (rule ccontr)
  assume "strip_prefix ''map('' (x @ r) \<noteq> None"
  then obtain t where "strip_prefix ''map('' (x @ r) = Some t" by auto
  then have eq: "x @ r = ''map('' @ t" by (rule strip_prefix_Some)
  have "takeWhile ident_char (''map('' @ t) = ''map''"
    and "dropWhile ident_char (''map('' @ t) = ''('' @ t"
    by (simp_all add: ident_char_def)
  with eq name_split [OF assms] have "r = ''('' @ t" by simp
  with assms(2) show False by (simp add: comma_ahead_def)
qed

lemma name_not_result:
  assumes "valid_name x" and "comma_ahead r"
  shows "strip_prefix ''result(for('' (x @ r) = None"
proof (rule ccontr)
  assume "strip_prefix ''result(for('' (x @ r) \<noteq> None"
  then obtain t where "strip_prefix ''result(for('' (x @ r) = Some t" by auto
  then have eq: "x @ r = ''result(for('' @ t" by (rule strip_prefix_Some)
  have "takeWhile ident_char (''result(for('' @ t) = ''result''"
    and "dropWhile ident_char (''result(for('' @ t) = ''(for('' @ t"
    by (simp_all add: ident_char_def)
  with eq name_split [OF assms] have "r = ''(for('' @ t" by simp
  with assms(2) show False by (simp add: comma_ahead_def)
qed

lemma parse_ident_name:
  assumes "valid_name x" and "comma_ahead r"
  shows "parse_ident (x @ r) = Some (Ident x, r)"
  using assms name_split [OF assms] by (simp add: parse_ident_def Let_def valid_name_def)

lemma parse_expr_render:
  "wf_expr e \<Longrightarrow> comma_ahead r \<Longrightarrow> parse_expr (render e @ r) = Some (e, r)"
proof (induction e arbitrary: r)
  case (Ident x)
  then show ?case
    by (simp add: parse_expr.simps [of "x @ r"] name_not_map name_not_result parse_ident_name)
next
  case (MapAdd e n)
  have "parse_expr (render e @ '', |e| e + '' @ str_int n @ '')'' @ r)
      = Some (e, '', |e| e + '' @ str_int n @ '')'' @ r)"
    using MapAdd.prems by (intro MapAdd.IH) (simp_all add: comma_ahead_def)
  moreover have "parse_int (str_int n @ '')'' @ r) = Some (n, '')'' @ r)"
    by (rule parse_int_str_int) (simp add: no_digit_ahead_def is_digit_def)
  ultimately show ?case
    by (subst parse_expr.simps) simp
next
  case (SumMerger e)
  have "parse_expr (render e @ '', merger[i64,+], |b,i,e| merge(b, i64(e))))'' @ r)
      = Some (e, '', merger[i64,+], |b,i,e| merge(b, i64(e))))'' @ r)"
    using SumMerger.prems by (intro SumMerger.IH) (simp_all add: comma_ahead_def)
  then show ?case
    by (subst parse_expr.simps) simp
qed

lemma parse_program_render: "wf_expr e \<Longrightarrow> parse_program (render e) = Some e"
  using parse_expr_render [of e "[]"] by (simp add: parse_program_def comma_ahead_def)

lemma wf_expr_foldl: "wf_expr (foldl MapAdd e ns) = wf_expr e"
  by (induction ns arbitrary: e) simp_all

lemma eval_expr_foldl:
  "eval_expr env e = Inr (VecI32 xs) \<Longrightarrow> list_all i32_literal ns \<Longrightarrow>
     eval_expr env (foldl MapAdd e ns)
       = Inr (VecI32 (map (\<lambda>x. x + word_of_int (sum_list ns)) xs))"
proof (induction ns arbitrary: e xs)
  case Nil
  then show ?case by simp
next
  case (Cons n ns)
  from Cons.prems
  have "eval_expr env (MapAdd e n) = Inr (VecI32 (map (\<lambda>x. x + word_of_int n) xs))"
    by simp
  from Cons.IH [OF this] Cons.prems(2) show ?case
    by (simp add: comp_def add.assoc)
qed

lemma foldl_merge_sum:
  "foldl (\<lambda>b e. b + scast e) z xs = z + (sum_list (map scast xs) :: i64)"
  by (induction xs arbitrary: z) (simp_all add: add.assoc)

lemma weld_evaluate_sum_nested:
  assumes "valid_name N" and "wo_context wo N = Some p" and "arrs p = Some a"
    and "list_all i32_literal ns"
    and "weld_code wo = sum_program (nested_map N ns)" and "wo_decoder wo = ScalarDecoder"
  shows "weld_evaluate wo arrs WeldLong
    = Inr (PyInt (sint (sum_list (map (\<lambda>x. scast (x + word_of_int (sum_list ns))) a) :: i64)))"
proof -
  let ?e = "foldl MapAdd (Ident N) ns"
  have code: "weld_code wo = render (SumMerger ?e)"
    using nested_map_render [of "Ident N" ns] by (simp add: assms(5) sum_program_def)
  have "wf_expr (SumMerger ?e)" using assms(1) by (simp add: wf_expr_foldl)
  then have parsed: "parse_program (weld_code wo) = Some (SumMerger ?e)"
    unfolding code by (rule parse_program_render)
  let ?env = "\<lambda>x. case wo_context wo x of None \<Rightarrow> None | Some p \<Rightarrow> arrs p"
  have "eval_expr ?env (Ident N) = Inr (VecI32 a)" by (simp add: assms(2,3))
  from eval_expr_foldl [OF this assms(4)]
  have "eval_expr ?env (SumMerger ?e)
      = Inr (I64 (sum_list (map (\<lambda>x. scast (x + word_of_int (sum_list ns))) a)))"
    by (simp add: foldl_merge_sum comp_def)
  with parsed show ?thesis
    by (simp add: weld_evaluate_def decode_def assms(6))
qed

lemma xrange_literals: "list_all i32_literal (xrange ITERATIONS)"
  by (simp add: xrange_def ITERATIONS_def i32_literal_def list_all_iff)

lemma valid_name_inp0: "valid_name ''_inp0''"
  by (simp add: valid_name_def ident_char_def is_digit_def)

section \<open>The wrapper's methods on the heap\<close>

lemma the_weldobj_SomeD:
  "the_weldobj h v = Inr (w, wo) \<Longrightarrow> getattr_weldobj h v = Inr w \<and> weldobjs h w = Some wo"
  by (auto simp: the_weldobj_def split: sum.splits option.splits)

lemma getattr_weldobj_set:
  "getattr_weldobj (set_weldobj h w wo) v = getattr_weldobj h v"
  by (cases v) (simp_all add: class_weldobj_def set_weldobj_def split: option.splits)

lemma the_weldobj_set:
  assumes "the_weldobj h v = Inr (w, wo)"
  shows "the_weldobj (set_weldobj h w wo') v = Inr (w, wo')"
proof -
  from assms have "getattr_weldobj h v = Inr w" by (simp add: the_weldobj_SomeD)
  then have "getattr_weldobj (set_weldobj h w wo') v = Inr w"
    by (simp add: getattr_weldobj_set)
  then show ?thesis by (simp add: the_weldobj_def) (simp add: set_weldobj_def)
qed

lemma set_weldobj_same:
  "weldobjs h w = Some wo \<Longrightarrow> set_weldobj h w wo = h"
  by (simp add: set_weldobj_def map_upd_triv)

lemma set_weldobj_twice:
  "set_weldobj (set_weldobj h w wo) w wo' = set_weldobj h w wo'"
  by (simp add: set_weldobj_def)

lemma add_step:
  "the_weldobj h v = Inr (w, wo) \<Longrightarrow>
     add h v n = (set_weldobj h w (wo\<lparr>weld_code := nested_map (weld_code wo) [n]\<rparr>), Inr v)"
  by (simp add: add_def str_format_map nested_map_Cons nested_map_Nil)


lemma add_frame:
  "arrays (fst (add h v n)) = arrays h \<and> evaluated (fst (add h v n)) = evaluated h
     \<and> instances (fst (add h v n)) = instances h \<and> next_id (fst (add h v n)) = next_id h
     \<and> cls_vector (fst (add h v n)) = cls_vector h
     \<and> cls_weldobj (fst (add h v n)) = cls_weldobj h"
  by (simp add: add_def set_weldobj_def str_format_map split: sum.splits prod.splits)

lemma weld_loop_adds:
  "the_weldobj h v = Inr (w, wo) \<Longrightarrow>
     weld_loop h v ns
       = (set_weldobj h w (wo\<lparr>weld_code := nested_map (weld_code wo) ns\<rparr>), Inr v)"
proof (induction ns arbitrary: h wo)
  case Nil
  then show ?case by (simp add: set_weldobj_same the_weldobj_SomeD nested_map_Nil)
next
  case (Cons n ns)
  let ?wo = "wo\<lparr>weld_code := nested_map (weld_code wo) [n]\<rparr>"
  from Cons.prems have "the_weldobj (set_weldobj h w ?wo) v = Inr (w, ?wo)"
    by (rule the_weldobj_set)
  from Cons.IH [OF this] Cons.prems show ?case
    by (simp add: iadd_def add_step set_weldobj_twice nested_map_Cons nested_map_Nil)
qed

lemma run_calls_adds:
  "the_weldobj h v = Inr (w, wo) \<Longrightarrow>
     run_calls ev h v (map Add ns)
       = (set_weldobj h w (wo\<lparr>weld_code := nested_map (weld_code wo) ns\<rparr>), Inr v)"
proof (induction ns arbitrary: h wo)
  case Nil
  then show ?case by (simp add: set_weldobj_same the_weldobj_SomeD nested_map_Nil)
next
  case (Cons n ns)
  let ?wo = "wo\<lparr>weld_code := nested_map (weld_code wo) [n]\<rparr>"
  from Cons.prems have "the_weldobj (set_weldobj h w ?wo) v = Inr (w, ?wo)"
    by (rule the_weldobj_set)
  from Cons.IH [OF this] Cons.prems show ?case
    by (simp add: add_step set_weldobj_twice nested_map_Cons nested_map_Nil)
qed

lemma vector_sum_step:
  "the_weldobj h v = Inr (w, wo) \<Longrightarrow>
     vector_sum ev h v =
       (let wo2 = wo\<lparr>weld_code := sum_program (weld_code wo), wo_decoder := ScalarDecoder\<rparr>;
            h1 = (set_weldobj h w wo2)\<lparr>evaluated := evaluated h @ [sum_program (weld_code wo)]\<rparr>
        in case ev wo2 (arrays h) WeldLong of
             Inl e \<Rightarrow> (h1, Inl e)
           | Inr r \<Rightarrow> (set_weldobj h1 w (wo\<lparr>wo_decoder := global_decoder\<rparr>), Inr r))"
  by (simp add: vector_sum_def str_format_sum Let_def set_weldobj_def split: sum.splits)

lemma vector_sum_raises:
  "the_weldobj h v = Inl e \<Longrightarrow> vector_sum ev h v = (h, Inl e)"
  by (simp add: vector_sum_def)

lemma vector_sum_frame:
  "arrays (fst (vector_sum ev h v)) = arrays h
   \<and> instances (fst (vector_sum ev h v)) = instances h
   \<and> next_id (fst (vector_sum ev h v)) = next_id h
   \<and> cls_vector (fst (vector_sum ev h v)) = cls_vector h
   \<and> cls_weldobj (fst (vector_sum ev h v)) = cls_weldobj h"
proof (cases "the_weldobj h v")
  case (Inl e)
  then show ?thesis by (simp add: vector_sum_raises)
next
  case (Inr p)
  obtain w wo where "p = (w, wo)" by (cases p)
  with Inr have "the_weldobj h v = Inr (w, wo)" by simp
  then show ?thesis
    by (simp add: vector_sum_step Let_def set_weldobj_def split: sum.splits)
qed

lemma fst_keep_heap:
  "fst (case p of (h', Inl e) \<Rightarrow> (h', Inl e) | (h', Inr r) \<Rightarrow> (h', g r)) = fst p"
  by (auto split: prod.splits sum.splits)

lemma exec_call_frame:
  "arrays (fst (exec_call ev h v c)) = arrays h
   \<and> instances (fst (exec_call ev h v c)) = instances h
   \<and> next_id (fst (exec_call ev h v c)) = next_id h
   \<and> cls_vector (fst (exec_call ev h v c)) = cls_vector h
   \<and> cls_weldobj (fst (exec_call ev h v c)) = cls_weldobj h"
  by (cases c) (simp_all add: fst_keep_heap add_frame vector_sum_frame iadd_def)

lemma run_calls_frame:
  "arrays (fst (run_calls ev h v cs)) = arrays h
   \<and> instances (fst (run_calls ev h v cs)) = instances h
   \<and> next_id (fst (run_calls ev h v cs)) = next_id h
   \<and> cls_vector (fst (run_calls ev h v cs)) = cls_vector h
   \<and> cls_weldobj (fst (run_calls ev h v cs)) = cls_weldobj h"
proof (induction cs arbitrary: h v)
  case Nil
  show ?case by simp
next
  case (Cons c cs)
  obtain h' r where step: "exec_call ev h v c = (h', r)" by (cases "exec_call ev h v c")
  with exec_call_frame [of ev h v c]
  have "arrays h' = arrays h \<and> instances h' = instances h \<and> next_id h' = next_id h
     \<and> cls_vector h' = cls_vector h \<and> cls_weldobj h' = cls_weldobj h" by simp
  with step Cons.IH [of h'] show ?case by (cases r) simp_all
qed

lemma exec_call_evaluated:
  "c \<noteq> VectorSum \<Longrightarrow> evaluated (fst (exec_call ev h v c)) = evaluated h"
  by (cases c) (simp_all add: fst_keep_heap add_frame iadd_def)

lemma run_calls_evaluated:
  "VectorSum \<notin> set cs \<Longrightarrow> evaluated (fst (run_calls ev h v cs)) = evaluated h"
proof (induction cs arbitrary: h v)
  case Nil
  show ?case by simp
next
  case (Cons c cs)
  obtain h' r where step: "exec_call ev h v c = (h', r)" by (cases "exec_call ev h v c")
  from Cons.prems have "c \<noteq> VectorSum" by auto
  with step exec_call_evaluated [of c ev h v] have "evaluated h' = evaluated h" by simp
  with step Cons.IH [of h'] Cons.prems show ?case by (cases r) simp_all
qed

subsection \<open>Construction\<close>

lemma HelloWeldVector_eq:
  "HelloWeldVector N h p =
     (h\<lparr>instances := (instances h)(next_id h \<mapsto> no_attributes),
        next_id := Suc (Suc (next_id h)),
        cls_vector := Some p,
        cls_weldobj := Some (Suc (next_id h)),
        weldobjs := (weldobjs h)(Suc (next_id h) \<mapsto>
          \<lparr>wo_encoder = global_encoder, wo_decoder = global_decoder, weld_code = N,
           wo_context = [N \<mapsto> p]\<rparr>)\<rparr>,
      Instance (next_id h))"
  by (simp add: HelloWeldVector_def init_def init_kind_def Let_def update_def
      WeldObject_new_def set_weldobj_def)

lemma the_weldobj_HelloWeldVector:
  "HelloWeldVector N h p = (h1, v) \<Longrightarrow>
     the_weldobj h1 v = Inr (Suc (next_id h),
       \<lparr>wo_encoder = global_encoder, wo_decoder = global_decoder, weld_code = N,
        wo_context = [N \<mapsto> p]\<rparr>)"
  by (auto simp: HelloWeldVector_eq the_weldobj_def class_weldobj_def no_attributes_def)

lemma HelloWeldVector_frame:
  "HelloWeldVector N h p = (h1, v) \<Longrightarrow>
     arrays h1 = arrays h \<and> evaluated h1 = evaluated h \<and> v = Instance (next_id h)"
  by (auto simp: HelloWeldVector_eq)

text \<open>
  Had \<^verbatim>\<open>__init__\<close> been installed as a plain function, the two attributes would be
  the new instance's own and the class would keep what it had.
\<close>

lemma init_as_plain_function:
  assumes "instances h i = Some no_attributes"
  shows "getattr_vector (init N h (bind_self PlainFunction i) p) (Instance i) = Inr p
    \<and> getattr_weldobj (init N h (bind_self PlainFunction i) p) (Instance i) = Inr (next_id h)
    \<and> cls_vector (init N h (bind_self PlainFunction i) p) = cls_vector h
    \<and> cls_weldobj (init N h (bind_self PlainFunction i) p) = cls_weldobj h"
  using assms
  by (simp add: init_def Let_def update_def WeldObject_new_def set_weldobj_def dict_of_def
      no_attributes_def)

lemma run_with_weld_steps:
  assumes "HelloWeldVector N h p = (h1, v)"
  defines "wo \<equiv> \<lparr>wo_encoder = global_encoder, wo_decoder = global_decoder,
      weld_code = nested_map N (xrange ITERATIONS), wo_context = [N \<mapsto> p]\<rparr>"
  shows "run_numpy_addition_with_weld ev N h p
      = vector_sum ev (set_weldobj h1 (Suc (next_id h)) wo) v"
    and "the_weldobj (set_weldobj h1 (Suc (next_id h)) wo) v = Inr (Suc (next_id h), wo)"
proof -
  let ?wo0 = "\<lparr>wo_encoder = global_encoder, wo_decoder = global_decoder, weld_code = N,
      wo_context = [N \<mapsto> p]\<rparr>"
  have w0: "the_weldobj h1 v = Inr (Suc (next_id h), ?wo0)"
    using assms(1) by (rule the_weldobj_HelloWeldVector)
  have wo: "wo = ?wo0\<lparr>weld_code := nested_map (weld_code ?wo0) (xrange ITERATIONS)\<rparr>"
    by (simp add: wo_def)
  from weld_loop_adds [OF w0, of "xrange ITERATIONS"]
  have "weld_loop h1 v (xrange ITERATIONS) = (set_weldobj h1 (Suc (next_id h)) wo, Inr v)"
    by (simp only: wo)
  with assms(1) show "run_numpy_addition_with_weld ev N h p
      = vector_sum ev (set_weldobj h1 (Suc (next_id h)) wo) v"
    by (simp add: run_numpy_addition_with_weld_def)
  from w0 show "the_weldobj (set_weldobj h1 (Suc (next_id h)) wo) v = Inr (Suc (next_id h), wo)"
    by (rule the_weldobj_set)
qed

lemma run_with_weld_result:
  assumes "arrays h p = Some a" and "valid_name N"
  shows "snd (run_numpy_addition_with_weld weld_evaluate N h p)
    = Inr (PyInt (sint (sum_list (map (\<lambda>x. scast (x + 780)) a) :: i64)))"
proof -
  obtain h1 v where new: "HelloWeldVector N h p = (h1, v)"
    by (cases "HelloWeldVector N h p")
  define wo where "wo = \<lparr>wo_encoder = global_encoder, wo_decoder = global_decoder,
      weld_code = nested_map N (xrange ITERATIONS), wo_context = [N \<mapsto> p]\<rparr>"
  let ?h2 = "set_weldobj h1 (Suc (next_id h)) wo"
  let ?wo2 = "wo\<lparr>weld_code := sum_program (weld_code wo), wo_decoder := ScalarDecoder\<rparr>"
  have run: "run_numpy_addition_with_weld weld_evaluate N h p = vector_sum weld_evaluate ?h2 v"
    and obj: "the_weldobj ?h2 v = Inr (Suc (next_id h), wo)"
    using run_with_weld_steps [OF new] by (simp_all add: wo_def)
  have arr: "arrays ?h2 = arrays h"
    using HelloWeldVector_frame [OF new] by (simp add: set_weldobj_def)
  have "weld_evaluate ?wo2 (arrays h) WeldLong
      = Inr (PyInt (sint (sum_list
          (map (\<lambda>x. scast (x + word_of_int (sum_list (xrange ITERATIONS)))) a) :: i64)))"
    using assms xrange_literals
    by (intro weld_evaluate_sum_nested [where N = N and p = p]) (simp_all add: wo_def)
  then have "weld_evaluate ?wo2 (arrays ?h2) WeldLong
      = Inr (PyInt (sint (sum_list (map (\<lambda>x. scast (x + 780)) a) :: i64)))"
    by (simp add: arr sum_xrange_ITERATIONS)
  then show ?thesis
    unfolding run vector_sum_step [OF obj] by (simp add: Let_def)
qed

lemma example_heap_array: "arrays (example_heap a) 0 = Some a"
  by (simp add: example_heap_def np_array_def empty_heap_def)

lemma the_weldobj_evaluated:
  "the_weldobj (h\<lparr>evaluated := t\<rparr>) v = the_weldobj h v"
  by (cases v) (simp_all add: the_weldobj_def class_weldobj_def split: option.splits)

lemma vector_sum_returns:
  assumes "vector_sum ev h v = (h', Inr r)"
  shows "\<exists>w wo. the_weldobj h v = Inr (w, wo)
    \<and> the_weldobj h' v = Inr (w, wo\<lparr>wo_decoder := global_decoder\<rparr>)"
proof (cases "the_weldobj h v")
  case (Inl e)
  with assms show ?thesis by (simp add: vector_sum_raises)
next
  case (Inr q)
  obtain w wo where obj: "the_weldobj h v = Inr (w, wo)" using Inr by (cases q) simp
  let ?wo2 = "wo\<lparr>weld_code := sum_program (weld_code wo), wo_decoder := ScalarDecoder\<rparr>"
  let ?h1 = "(set_weldobj h w ?wo2)\<lparr>evaluated := evaluated h @ [sum_program (weld_code wo)]\<rparr>"
  from assms obj have h': "h' = set_weldobj ?h1 w (wo\<lparr>wo_decoder := global_decoder\<rparr>)"
    by (simp add: vector_sum_step Let_def split: sum.splits)
  from obj have "the_weldobj ?h1 v = Inr (w, ?wo2)"
    by (simp add: the_weldobj_evaluated the_weldobj_set)
  then have "the_weldobj h' v = Inr (w, wo\<lparr>wo_decoder := global_decoder\<rparr>)"
    unfolding h' by (rule the_weldobj_set)
  with obj show ?thesis by blast
qed

lemma weld_loop_run_calls: "weld_loop h v ns = run_calls ev h v (map IAdd ns)"
  by (induction ns arbitrary: h v) (auto split: prod.splits sum.splits)

lemma run_with_weld_arrays: "arrays (fst (run_numpy_addition_with_weld ev N h p)) = arrays h"
proof -
  obtain h1 v where new: "HelloWeldVector N h p = (h1, v)"
    by (cases "HelloWeldVector N h p")
  from run_with_weld_steps(1) [OF new, of ev] HelloWeldVector_frame [OF new]
  show ?thesis by (simp add: vector_sum_frame set_weldobj_def)
qed

lemma run_with_weld_evaluated:
  "evaluated (fst (run_numpy_addition_with_weld ev N h p))
     = evaluated h @ [sum_program (nested_map N (xrange ITERATIONS))]"
proof -
  obtain h1 v where new: "HelloWeldVector N h p = (h1, v)"
    by (cases "HelloWeldVector N h p")
  from HelloWeldVector_frame [OF new] show ?thesis
    unfolding run_with_weld_steps(1) [OF new] vector_sum_step [OF run_with_weld_steps(2) [OF new]]
    by (simp add: Let_def set_weldobj_def split: sum.splits)
qed

lemma example_wrapped_facts:
  "the_weldobj example_wrapped (Instance 1) = Inr (2,
     \<lparr>wo_encoder = global_encoder, wo_decoder = global_decoder, weld_code = ''_inp0'',
      wo_context = [''_inp0'' \<mapsto> 0]\<rparr>)"
  "evaluated example_wrapped = []"
  "arrays example_wrapped = [0 \<mapsto> [1, 2, 3]]"
  by (simp_all add: example_wrapped_def HelloWeldVector_eq example_heap_def np_array_def
      empty_heap_def the_weldobj_def class_weldobj_def no_attributes_def)

lemma example_wrapped_sum:
  "weld_evaluate
     \<lparr>wo_encoder = global_encoder, wo_decoder = ScalarDecoder,
      weld_code = sum_program ''_inp0'', wo_context = [''_inp0'' \<mapsto> 0]\<rparr>
     [0 \<mapsto> [1, 2, 3]] WeldLong = Inr (PyInt 6)"
  using weld_evaluate_sum_nested [where N = "''_inp0''" and p = 0 and a = "[1, 2, 3]"
      and ns = "[]" and arrs = "[0 \<mapsto> [1, 2, 3]]"
      and wo = "\<lparr>wo_encoder = global_encoder, wo_decoder = ScalarDecoder,
        weld_code = sum_program ''_inp0'', wo_context = [''_inp0'' \<mapsto> 0]\<rparr>"]
  by (simp add: valid_name_inp0 nested_map_Nil)

section \<open>The claims\<close>

text \<open>
  Claim C1, as amended. For every int32 array \<open>a\<close> on the heap and every name the
  runtime assigns, \<^verbatim>\<open>run_numpy_addition_with_weld(a)\<close>, run on the modelled
  accelerator, returns the value \<^verbatim>\<open>run_numpy_addition\<close> returns on an equal copy of
  \<open>a\<close>. With \<open>ITERATIONS = 40\<close> that value is the 64-bit sum of the elements after 780
  has been added to each in wrapping int32 arithmetic. It is
  \<open>sum(a) + 780 * len(a)\<close> when no element exceeds \<open>2 ^ 31 - 781\<close> and the array has
  fewer than \<open>2 ^ 32\<close> elements, and 418759311360 for the zero array of length
  \<open>2 << 28\<close>.
\<close>

theorem weld_matches_numpy:
  assumes "arrays h p = Some a" and "valid_name N"
  shows "snd (run_numpy_addition_with_weld weld_evaluate N h p)
        = Inr (PyInt (snd (run_numpy_addition a)))
    \<and> snd (run_numpy_addition a) = sint (sum_list (map (\<lambda>x. scast (x + 780)) a) :: i64)
    \<and> (list_all (\<lambda>x. sint x \<le> 2147482867) a \<and> length a < 2 ^ 32 \<longrightarrow>
         snd (run_numpy_addition a) = sum_list (map sint a) + 780 * int (length a))
    \<and> (a = replicate SIZE 0 \<longrightarrow> snd (run_numpy_addition a) = 418759311360)"
  using run_with_weld_result [OF assms] run_numpy_addition_no_overflow [of a]
    run_numpy_addition_zeros
  by (simp add: run_numpy_addition_eq)

theorem weld_matches_numpy_witness:
  "arrays (example_heap (replicate SIZE 0)) 0 = Some (replicate SIZE 0)
   \<and> valid_name ''_inp0''
   \<and> list_all (\<lambda>x. sint x \<le> 2147482867) (replicate SIZE (0 :: i32))
   \<and> length (replicate SIZE (0 :: i32)) < 2 ^ 32
   \<and> snd (run_numpy_addition_with_weld weld_evaluate ''_inp0''
            (example_heap (replicate SIZE 0)) 0) = Inr (PyInt 418759311360)
   \<and> snd (run_numpy_addition (replicate SIZE 0)) = 418759311360
   \<and> sum_list (map sint (replicate SIZE (0 :: i32))) + 780 * int SIZE = 418759311360"
proof -
  have l: "length (replicate SIZE (0 :: i32)) < 2 ^ 32"
    by (simp add: SIZE_def)
  have b: "list_all (\<lambda>x. sint x \<le> 2147482867) (replicate SIZE (0 :: i32))"
    by (simp add: list_all_iff)
  from weld_matches_numpy [OF example_heap_array valid_name_inp0, of "replicate SIZE 0"] l b
  show ?thesis by (simp add: example_heap_array valid_name_inp0)
qed

text \<open>
  The claim as the specification states it gives \<open>sum(a) + 780 * len(a)\<close> for every
  int32 array. On the one-element array holding \<open>2 ^ 31 - 1\<close> both routines return
  \<open>-2147482869\<close>, not \<open>2147484427\<close>: the int32 additions wrap before the 64-bit sum
  is taken.
\<close>

theorem formula_fails_on_overflow:
  "snd (run_numpy_addition [2147483647])
       \<noteq> sum_list (map sint [2147483647 :: i32]) + 780 * int (length [2147483647 :: i32])
   \<and> snd (run_numpy_addition [2147483647]) = - 2147482869
   \<and> snd (run_numpy_addition_with_weld weld_evaluate ''_inp0'' (example_heap [2147483647]) 0)
       = Inr (PyInt (- 2147482869))
   \<and> sum_list (map sint [2147483647 :: i32]) + 780 * int (length [2147483647 :: i32])
       = 2147484427"
  by (simp add: run_with_weld_result [OF example_heap_array valid_name_inp0]
      run_numpy_addition_eq)

text \<open>
  Claim C2. Neither \<^verbatim>\<open>add\<close> nor \<^verbatim>\<open>+=\<close> (nor the constructor) hands anything to
  the runtime's \<^verbatim>\<open>evaluate\<close>: the trace of evaluated programs is the same after any
  sequence of them, whatever the runtime is. A call of \<^verbatim>\<open>vector_sum\<close> on a wrapper
  extends the trace by exactly one program, the accumulated code inside the sum template;
  so \<^verbatim>\<open>run_numpy_addition_with_weld\<close> evaluates once, at its end, the program of all
  forty additions.
\<close>

theorem evaluate_only_in_vector_sum:
  "evaluated (fst (HelloWeldVector N h p)) = evaluated h
   \<and> evaluated (fst (add h v n)) = evaluated h
   \<and> evaluated (fst (iadd h v n)) = evaluated h
   \<and> evaluated (fst (run_calls ev h v (map Add ns))) = evaluated h
   \<and> evaluated (fst (weld_loop h v ns)) = evaluated h
   \<and> (VectorSum \<notin> set cs \<longrightarrow> evaluated (fst (run_calls ev h v cs)) = evaluated h)
   \<and> (the_weldobj h v = Inr (w, wo) \<longrightarrow>
        evaluated (fst (vector_sum ev h v)) = evaluated h @ [sum_program (weld_code wo)])
   \<and> evaluated (fst (run_numpy_addition_with_weld ev N h p))
       = evaluated h @ [sum_program (nested_map N (xrange ITERATIONS))]"
proof -
  have "evaluated (fst (HelloWeldVector N h p)) = evaluated h"
    by (simp add: HelloWeldVector_eq)
  moreover have "evaluated (fst (run_calls ev h v (map Add ns))) = evaluated h"
    by (rule run_calls_evaluated) auto
  moreover have "evaluated (fst (run_calls ev h v (map IAdd ns))) = evaluated h"
    by (rule run_calls_evaluated) auto
  then have "evaluated (fst (weld_loop h v ns)) = evaluated h"
    by (simp add: weld_loop_run_calls [of h v ns ev])
  moreover have "evaluated (fst (vector_sum ev h v)) = evaluated h @ [sum_program (weld_code wo)]"
    if "the_weldobj h v = Inr (w, wo)"
    using that by (simp add: vector_sum_step Let_def set_weldobj_def split: sum.splits)
  ultimately show ?thesis
    by (simp add: add_frame iadd_def run_calls_evaluated run_with_weld_evaluated)
qed

theorem evaluate_only_in_vector_sum_witness:
  "VectorSum \<notin> set [Add 5, IAdd 7]
   \<and> evaluated (fst (run_calls weld_evaluate example_wrapped (Instance 1) [Add 5, IAdd 7])) = []
   \<and> evaluated (fst (vector_sum weld_evaluate example_wrapped (Instance 1)))
       = [''result(for(_inp0, merger[i64,+], |b,i,e| merge(b, i64(e))))'']"
  using evaluate_only_in_vector_sum [where h = example_wrapped and v = "Instance 1"
      and ev = weld_evaluate and cs = "[Add 5, IAdd 7]" and w = 2
      and wo = "\<lparr>wo_encoder = global_encoder, wo_decoder = global_decoder,
        weld_code = ''_inp0'', wo_context = [''_inp0'' \<mapsto> 0]\<rparr>"]
  by (simp add: example_wrapped_facts sum_program_def del: One_nat_def)

text \<open>
  Claim C3. A freshly constructed wrapper whose program object was assigned the name
  \<open>N\<close> has \<open>weld_code = N\<close>; after \<open>add(n1), \<dots>, add(nk)\<close> the code is the nested text
  \<open>map(...map(map(N, |e| e + n1), |e| e + n2)..., |e| e + nk)\<close>. Each \<^verbatim>\<open>add\<close> puts
  exactly one \<open>map(..., |e| e + number)\<close> layer around the current code, changes no
  other attribute of the program object and nothing else on the heap, and returns.
\<close>

theorem add_builds_nested_map:
  "weld_code_of (fst (HelloWeldVector N h p)) (snd (HelloWeldVector N h p)) = Inr N
   \<and> weld_code_of
        (fst (run_calls ev (fst (HelloWeldVector N h p)) (snd (HelloWeldVector N h p))
               (map Add ns)))
        (snd (HelloWeldVector N h p)) = Inr (nested_map N ns)
   \<and> nested_map N [] = N
   \<and> nested_map N (ns @ [n]) = ''map('' @ nested_map N ns @ '', |e| e + '' @ str_int n @ '')''
   \<and> (the_weldobj h v = Inr (w, wo) \<longrightarrow>
        add h v n =
          (set_weldobj h w
             (wo\<lparr>weld_code := ''map('' @ weld_code wo @ '', |e| e + '' @ str_int n @ '')''\<rparr>),
           Inr v))"
proof -
  obtain h1 v1 where new: "HelloWeldVector N h p = (h1, v1)"
    by (cases "HelloWeldVector N h p")
  let ?wo0 = "\<lparr>wo_encoder = global_encoder, wo_decoder = global_decoder, weld_code = N,
      wo_context = [N \<mapsto> p]\<rparr>"
  have w0: "the_weldobj h1 v1 = Inr (Suc (next_id h), ?wo0)"
    using new by (rule the_weldobj_HelloWeldVector)
  then have fresh: "weld_code_of h1 v1 = Inr N"
    by (simp add: weld_code_of_def)
  have "the_weldobj (set_weldobj h1 (Suc (next_id h)) (?wo0\<lparr>weld_code := nested_map N ns\<rparr>)) v1
      = Inr (Suc (next_id h), ?wo0\<lparr>weld_code := nested_map N ns\<rparr>)"
    using w0 by (rule the_weldobj_set)
  with run_calls_adds [OF w0, of ev ns]
  have nested: "weld_code_of (fst (run_calls ev h1 v1 (map Add ns))) v1 = Inr (nested_map N ns)"
    by (simp add: weld_code_of_def)
  from new fresh nested show ?thesis
    by (simp add: nested_map_Nil nested_map_snoc add_step nested_map_Cons)
qed

theorem add_builds_nested_map_witness:
  "weld_code_of example_wrapped (Instance 1) = Inr ''_inp0''
   \<and> weld_code_of (fst (run_calls weld_evaluate example_wrapped (Instance 1) [Add 1, Add 2]))
        (Instance 1) = Inr ''map(map(_inp0, |e| e + 1), |e| e + 2)''
   \<and> snd (add example_wrapped (Instance 1) 40) = Inr (Instance 1)
   \<and> weld_code_of (fst (add example_wrapped (Instance 1) 40)) (Instance 1)
       = Inr ''map(_inp0, |e| e + 40)''"
proof -
  let ?wo = "\<lparr>wo_encoder = global_encoder, wo_decoder = global_decoder, weld_code = ''_inp0'',
      wo_context = [''_inp0'' \<mapsto> 0]\<rparr>"
  have new: "HelloWeldVector ''_inp0'' (example_heap [1, 2, 3]) 0 = (example_wrapped, Instance 1)"
    by (simp add: example_wrapped_def HelloWeldVector_eq example_heap_def np_array_def
        empty_heap_def)
  have texts: "nested_map ''_inp0'' [1, 2] = ''map(map(_inp0, |e| e + 1), |e| e + 2)''"
    "str_int 40 = ''40''"
    by (simp_all add: nested_map_def str_int_def str_nat.simps digit_char_def)
  note built = add_builds_nested_map [where N = "''_inp0''" and h = "example_heap [1, 2, 3]"
      and p = 0 and ev = weld_evaluate and ns = "[1, 2]"]
  from built have fresh: "weld_code_of example_wrapped (Instance 1) = Inr ''_inp0''"
    unfolding new fst_conv snd_conv by (rule conjunct1)
  from built [THEN conjunct2, THEN conjunct1]
  have two: "weld_code_of
      (fst (run_calls weld_evaluate example_wrapped (Instance 1) (map Add [1, 2]))) (Instance 1)
      = Inr ''map(map(_inp0, |e| e + 1), |e| e + 2)''"
    unfolding new fst_conv snd_conv texts .
  from add_builds_nested_map [where h = example_wrapped and v = "Instance 1" and n = 40
      and w = 2 and wo = ?wo, THEN conjunct2, THEN conjunct2, THEN conjunct2, THEN conjunct2,
      THEN mp, OF example_wrapped_facts(1)]
  have step: "add example_wrapped (Instance 1) 40
      = (set_weldobj example_wrapped 2 (?wo\<lparr>weld_code := ''map(_inp0, |e| e + 40)''\<rparr>),
         Inr (Instance 1))"
    by (simp add: texts del: One_nat_def)
  have "the_weldobj (set_weldobj example_wrapped 2 (?wo\<lparr>weld_code := ''map(_inp0, |e| e + 40)''\<rparr>))
      (Instance 1) = Inr (2, ?wo\<lparr>weld_code := ''map(_inp0, |e| e + 40)''\<rparr>)"
    using example_wrapped_facts(1) by (rule the_weldobj_set)
  then have code: "weld_code_of (fst (add example_wrapped (Instance 1) 40)) (Instance 1)
      = Inr ''map(_inp0, |e| e + 40)''"
    unfolding step fst_conv by (simp add: weld_code_of_def)
  from fresh two step code show ?thesis by simp
qed

text \<open>
  Claim C5. With \<open>ITERATIONS = 40\<close> the baseline routine leaves every element of its
  array at the original value plus 780 (the sum \<open>0 + 1 + \<dots> + 39\<close>), the addition being
  the array's wrapping int32 addition, and returns the 64-bit sum of the updated elements;
  on the zero array of length \<open>SIZE = 2 << 28\<close> it leaves 780 everywhere and returns
  418759311360.
\<close>

theorem run_numpy_addition_in_place:
  "fst (run_numpy_addition a) = map (\<lambda>x. x + 780) a
   \<and> snd (run_numpy_addition a) = sint (np_sum (fst (run_numpy_addition a)))
   \<and> sum_list (xrange ITERATIONS) = 780
   \<and> fst (run_numpy_addition (replicate SIZE 0)) = replicate SIZE 780
   \<and> SIZE = 536870912
   \<and> snd (run_numpy_addition (replicate SIZE 0)) = 418759311360"
proof -
  have "fst (run_numpy_addition a) = map (\<lambda>x. x + 780) a" for a
    by (simp add: run_numpy_addition_eq)
  moreover have "snd (run_numpy_addition a) = sint (np_sum (fst (run_numpy_addition a)))"
    by (simp add: run_numpy_addition_def Let_def)
  moreover have "SIZE = 536870912"
    by (simp add: SIZE_def)
  ultimately show ?thesis
    by (simp add: sum_xrange_ITERATIONS run_numpy_addition_zeros)
qed

text \<open>
  Claim C4. When a call of \<^verbatim>\<open>vector_sum\<close> returns, the wrapper's \<^verbatim>\<open>weld_code\<close> is
  what it was before the call and the program object's decoder is the NumPy array decoder
  \<^verbatim>\<open>_decoder\<close>, whatever the runtime returned; a later \<^verbatim>\<open>add\<close> therefore builds
  the same code as it would have built before the call.
\<close>

theorem vector_sum_restores:
  assumes "vector_sum ev h v = (h', Inr r)"
  shows "(\<exists>c. weld_code_of h v = Inr c \<and> weld_code_of h' v = Inr c)
    \<and> decoder_of h' v = Inr global_decoder
    \<and> global_decoder = NumpyArrayDecoder
    \<and> weld_code_of (fst (add h' v n)) v = weld_code_of (fst (add h v n)) v"
proof -
  from vector_sum_returns [OF assms] obtain w wo
    where before: "the_weldobj h v = Inr (w, wo)"
      and after: "the_weldobj h' v = Inr (w, wo\<lparr>wo_decoder := global_decoder\<rparr>)"
    by blast
  have "weld_code_of (fst (add h' v n)) v = Inr (nested_map (weld_code wo) [n])"
    using the_weldobj_set [OF after] by (simp add: add_step [OF after] weld_code_of_def)
  moreover have "weld_code_of (fst (add h v n)) v = Inr (nested_map (weld_code wo) [n])"
    using the_weldobj_set [OF before] by (simp add: add_step [OF before] weld_code_of_def)
  ultimately show ?thesis
    using before after by (simp add: weld_code_of_def decoder_of_def global_decoder_def)
qed

theorem vector_sum_restores_witness:
  "snd (vector_sum weld_evaluate example_wrapped (Instance 1)) = Inr (PyInt 6)
   \<and> weld_code_of example_wrapped (Instance 1) = Inr ''_inp0''
   \<and> weld_code_of (fst (vector_sum weld_evaluate example_wrapped (Instance 1))) (Instance 1)
       = Inr ''_inp0''
   \<and> decoder_of (fst (vector_sum weld_evaluate example_wrapped (Instance 1))) (Instance 1)
       = Inr NumpyArrayDecoder"
proof -
  have ret: "snd (vector_sum weld_evaluate example_wrapped (Instance 1)) = Inr (PyInt 6)"
    by (simp add: vector_sum_step [OF example_wrapped_facts(1)] example_wrapped_facts(3)
        example_wrapped_sum Let_def del: One_nat_def)
  then have "vector_sum weld_evaluate example_wrapped (Instance 1)
      = (fst (vector_sum weld_evaluate example_wrapped (Instance 1)), Inr (PyInt 6))"
    by (simp add: prod_eq_iff)
  from vector_sum_restores [OF this, of 0] ret example_wrapped_facts(1) show ?thesis
    by (auto simp: weld_code_of_def global_decoder_def)
qed

text \<open>
  Claim C6. \<^verbatim>\<open>__init__\<close> is installed as a \<^verbatim>\<open>classmethod\<close>, so its
  \<^verbatim>\<open>self\<close> is the class: constructing a wrapper leaves the new instance without
  attributes of its own and binds \<^verbatim>\<open>vector\<close> and \<^verbatim>\<open>weldobj\<close> on the class.
  Constructing a second wrapper, after any calls on the first, replaces both: through
  the first instance one then reads the second array, the second program object and the
  second program, whatever had been accumulated.
\<close>

theorem init_binds_class:
  assumes "HelloWeldVector N1 h p1 = (h1, Instance i1)"
    and "run_calls ev h1 (Instance i1) cs = (h1', r)"
    and "HelloWeldVector N2 h1' p2 = (h2, Instance i2)"
  shows "bind_self init_kind i1 = TheClass
    \<and> instances h1 i1 = Some no_attributes
    \<and> cls_vector h1 = Some p1 \<and> cls_weldobj h1 = Some (Suc i1)
    \<and> getattr_vector h1 (Instance i1) = Inr p1
    \<and> getattr_weldobj h1 (Instance i1) = Inr (Suc i1)
    \<and> i2 \<noteq> i1
    \<and> instances h2 i1 = Some no_attributes \<and> instances h2 i2 = Some no_attributes
    \<and> getattr_vector h2 (Instance i1) = Inr p2 \<and> getattr_vector h2 (Instance i2) = Inr p2
    \<and> getattr_weldobj h2 (Instance i1) = Inr (Suc i2)
    \<and> getattr_weldobj h2 (Instance i2) = Inr (Suc i2)
    \<and> Suc i2 \<noteq> Suc i1
    \<and> weld_code_of h2 (Instance i1) = Inr N2 \<and> weld_code_of h2 (Instance i2) = Inr N2"
proof -
  from assms(1) have h1: "instances h1 i1 = Some no_attributes"
    "cls_vector h1 = Some p1" "cls_weldobj h1 = Some (Suc i1)" "next_id h1 = Suc (Suc i1)"
    by (auto simp: HelloWeldVector_eq)
  from run_calls_frame [of ev h1 "Instance i1" cs] assms(2)
  have h1': "instances h1' = instances h1" "next_id h1' = next_id h1" by simp_all
  from assms(3) have i2: "i2 = next_id h1'" by (simp add: HelloWeldVector_eq)
  with h1 h1' have ne: "i2 \<noteq> i1" by simp
  from assms(3) h1 h1' ne have h2: "instances h2 i1 = Some no_attributes"
    "instances h2 i2 = Some no_attributes"
    "cls_vector h2 = Some p2" "cls_weldobj h2 = Some (Suc i2)"
    by (auto simp: HelloWeldVector_eq)
  from assms(3) have w2: "weldobjs h2 (Suc i2) = Some \<lparr>wo_encoder = global_encoder,
      wo_decoder = global_decoder, weld_code = N2, wo_context = [N2 \<mapsto> p2]\<rparr>"
    by (auto simp: HelloWeldVector_eq)
  from h1 h2 w2 ne show ?thesis
    by (simp add: class_vector_def class_weldobj_def weld_code_of_def the_weldobj_def
        no_attributes_def init_kind_def)
qed

theorem init_binds_class_witness:
  "HelloWeldVector ''_inp0'' (example_heap [1, 2, 3]) 0 = (example_wrapped, Instance 1)
   \<and> weld_code_of (fst (run_calls weld_evaluate example_wrapped (Instance 1) [Add 5]))
        (Instance 1) = Inr ''map(_inp0, |e| e + 5)''
   \<and> snd (HelloWeldVector ''_inp1''
            (fst (run_calls weld_evaluate example_wrapped (Instance 1) [Add 5])) 7) = Instance 3
   \<and> weld_code_of
        (fst (HelloWeldVector ''_inp1''
               (fst (run_calls weld_evaluate example_wrapped (Instance 1) [Add 5])) 7))
        (Instance 1) = Inr ''_inp1''
   \<and> getattr_vector
        (fst (HelloWeldVector ''_inp1''
               (fst (run_calls weld_evaluate example_wrapped (Instance 1) [Add 5])) 7))
        (Instance 1) = Inr 7"
proof -
  let ?wo = "\<lparr>wo_encoder = global_encoder, wo_decoder = global_decoder, weld_code = ''_inp0'',
      wo_context = [''_inp0'' \<mapsto> 0]\<rparr>"
  define h1' where "h1' = fst (run_calls weld_evaluate example_wrapped (Instance 1) [Add 5])"
  define h2 where "h2 = fst (HelloWeldVector ''_inp1'' h1' 7)"
  have new: "HelloWeldVector ''_inp0'' (example_heap [1, 2, 3]) 0 = (example_wrapped, Instance 1)"
    by (simp add: example_wrapped_def HelloWeldVector_eq example_heap_def np_array_def
        empty_heap_def)
  have "str_int 5 = ''5''"
    by (simp add: str_int_def str_nat.simps digit_char_def)
  with run_calls_adds [OF example_wrapped_facts(1), of weld_evaluate "[5]"]
  have calls: "run_calls weld_evaluate example_wrapped (Instance 1) [Add 5]
      = (set_weldobj example_wrapped 2 (?wo\<lparr>weld_code := ''map(_inp0, |e| e + 5)''\<rparr>),
         Inr (Instance 1))"
    by (simp add: nested_map_def del: One_nat_def)
  then have first: "run_calls weld_evaluate example_wrapped (Instance 1) [Add 5]
      = (h1', Inr (Instance 1))"
    by (simp add: h1'_def)
  have "the_weldobj (set_weldobj example_wrapped 2 (?wo\<lparr>weld_code := ''map(_inp0, |e| e + 5)''\<rparr>))
      (Instance 1) = Inr (2, ?wo\<lparr>weld_code := ''map(_inp0, |e| e + 5)''\<rparr>)"
    using example_wrapped_facts(1) by (rule the_weldobj_set)
  then have acc: "weld_code_of h1' (Instance 1) = Inr ''map(_inp0, |e| e + 5)''"
    unfolding h1'_def calls fst_conv by (simp add: weld_code_of_def)
  have "next_id h1' = 3"
    unfolding h1'_def
    using run_calls_frame [of weld_evaluate example_wrapped "Instance 1" "[Add 5]"]
    by (simp add: example_wrapped_def HelloWeldVector_eq example_heap_def np_array_def
        empty_heap_def del: run_calls.simps)
  then have second: "HelloWeldVector ''_inp1'' h1' 7 = (h2, Instance 3)"
    by (simp add: h2_def HelloWeldVector_eq)
  note shared = init_binds_class [OF new first second]
  from shared have code: "weld_code_of h2 (Instance 1) = Inr ''_inp1''" by blast
  from shared have vec: "getattr_vector h2 (Instance 1) = Inr 7" by blast
  from second have inst: "snd (HelloWeldVector ''_inp1'' h1' 7) = Instance 3" by simp
  from new acc inst code vec show ?thesis
    unfolding h2_def h1'_def by blast
qed

text \<open>
  Claim C7. On a wrapper, \<^verbatim>\<open>add\<close> returns the object it was called on, not a copy: no
  instance is created and none changes. \<^verbatim>\<open>__iadd__\<close> is \<^verbatim>\<open>add\<close>, so
  \<^verbatim>\<open>a += i\<close> rebinds \<^verbatim>\<open>a\<close> to the same wrapper, also after a whole loop of
  them.
\<close>

theorem add_returns_self:
  "iadd h v n = add h v n
   \<and> instances (fst (add h v n)) = instances h
   \<and> next_id (fst (add h v n)) = next_id h
   \<and> snd (add (fst (HelloWeldVector N h0 p)) (snd (HelloWeldVector N h0 p)) n)
       = Inr (snd (HelloWeldVector N h0 p))
   \<and> (the_weldobj h v = Inr (w, wo) \<longrightarrow>
        snd (add h v n) = Inr v \<and> snd (iadd h v n) = Inr v
        \<and> snd (exec_call ev h v (IAdd n)) = Inr v
        \<and> snd (weld_loop h v ns) = Inr v)"
proof -
  obtain h1 v1 where new: "HelloWeldVector N h0 p = (h1, v1)"
    by (cases "HelloWeldVector N h0 p")
  from the_weldobj_HelloWeldVector [OF new] have "snd (add h1 v1 n) = Inr v1"
    by (simp add: add_step)
  with new show ?thesis
    by (simp add: iadd_def add_frame add_step weld_loop_adds)
qed

theorem add_returns_self_witness:
  "snd (add example_wrapped (Instance 1) 5) = Inr (Instance 1)
   \<and> iadd example_wrapped (Instance 1) 5 = add example_wrapped (Instance 1) 5
   \<and> snd (weld_loop example_wrapped (Instance 1) (xrange ITERATIONS)) = Inr (Instance 1)"
  using add_returns_self [where h = example_wrapped and v = "Instance 1" and n = 5
      and w = 2 and ns = "xrange ITERATIONS"
      and wo = "\<lparr>wo_encoder = global_encoder, wo_decoder = global_decoder,
        weld_code = ''_inp0'', wo_context = [''_inp0'' \<mapsto> 0]\<rparr>"]
    example_wrapped_facts(1)
  by blast

text \<open>
  Claim C8. Neither the constructor, nor \<^verbatim>\<open>add\<close>, nor \<^verbatim>\<open>vector_sum\<close> writes to
  an array: whatever the runtime returns or raises, the arrays of the heap are the same
  after any sequence of calls on a wrapper, the wrapped one among them. The baseline
  routine, by contrast, changes every array that has an element. (The runtime only reads
  the arrays: its \<^verbatim>\<open>evaluate\<close> is given them and hands back a value.)
\<close>

theorem wrapped_array_untouched:
  "arrays (fst (HelloWeldVector N h p)) = arrays h
   \<and> arrays (fst (add h v n)) = arrays h
   \<and> arrays (fst (vector_sum ev h v)) = arrays h
   \<and> arrays (fst (run_calls ev h v cs)) = arrays h
   \<and> arrays (fst (run_calls ev (fst (HelloWeldVector N h p)) (snd (HelloWeldVector N h p)) cs)) p
       = arrays h p
   \<and> arrays (fst (run_numpy_addition_with_weld ev N h p)) = arrays h
   \<and> (a \<noteq> [] \<longrightarrow> fst (run_numpy_addition a) \<noteq> a)"
  by (simp add: HelloWeldVector_eq add_frame vector_sum_frame run_calls_frame
      run_with_weld_arrays run_numpy_addition_changes)

theorem wrapped_array_untouched_witness:
  "arrays (fst (run_calls weld_evaluate example_wrapped (Instance 1)
             [Add 5, VectorSum, IAdd 7, VectorSum])) 0 = Some [1, 2, 3]
   \<and> arrays (fst (run_numpy_addition_with_weld weld_evaluate ''_inp0''
                    (example_heap [1, 2, 3]) 0)) 0 = Some [1, 2, 3]
   \<and> fst (run_numpy_addition [1, 2, 3]) = [781, 782, 783]"
proof -
  note frame = wrapped_array_untouched [where ev = weld_evaluate and a = "[1, 2, 3]"]
  from frame [where h = example_wrapped and v = "Instance 1"
      and cs = "[Add 5, VectorSum, IAdd 7, VectorSum]"]
  have "arrays (fst (run_calls weld_evaluate example_wrapped (Instance 1)
      [Add 5, VectorSum, IAdd 7, VectorSum])) = arrays example_wrapped"
    by blast
  moreover from frame [where h = "example_heap [1, 2, 3]" and N = "''_inp0''" and p = 0]
  have "arrays (fst (run_numpy_addition_with_weld weld_evaluate ''_inp0''
      (example_heap [1, 2, 3]) 0)) = arrays (example_heap [1, 2, 3])"
    by blast
  moreover have "fst (run_numpy_addition [1, 2, 3]) = [781, 782, 783]"
    by (simp add: run_numpy_addition_eq)
  ultimately show ?thesis
    by (simp add: example_wrapped_facts example_heap_array)
qed



end
